theory Spec2Isabelle
  imports Main "HOL-Library.Word" "HOL-Library.Sublist" "HOL-Library.Sorting_Algorithms"
begin

section \<open>JavaScript strings\<close>

text \<open>
  A JavaScript string is a sequence of 16-bit code units, so the model of \<^verbatim>\<open>string\<close> is a
  list of 16-bit words. \<open>u\<close> turns an Isabelle literal into such a list, one code unit for
  each character.
\<close>

type_synonym ustring = "16 word list"

definition u :: "string \<Rightarrow> ustring" where
  "u s = map of_char s"

text \<open>
  \<^verbatim>\<open>String.prototype.trim\<close> and the class \<^verbatim>\<open>\s\<close> of a regular expression take the same
  code units for blank: WhiteSpace and LineTerminator of ECMAScript.
\<close>

definition isWhiteSpace :: "16 word \<Rightarrow> bool" where
  "isWhiteSpace c \<longleftrightarrow>
     c = 0x09 \<or> c = 0x0A \<or> c = 0x0B \<or> c = 0x0C \<or> c = 0x0D \<or> c = 0x20 \<or> c = 0xA0 \<or>
     c = 0x1680 \<or> (0x2000 \<le> c \<and> c \<le> 0x200A) \<or> c = 0x2028 \<or> c = 0x2029 \<or>
     c = 0x202F \<or> c = 0x205F \<or> c = 0x3000 \<or> c = 0xFEFF"

definition trimStart :: "ustring \<Rightarrow> ustring" where
  "trimStart s = dropWhile isWhiteSpace s"

definition trimEnd :: "ustring \<Rightarrow> ustring" where
  "trimEnd s = rev (dropWhile isWhiteSpace (rev s))"

definition trim :: "ustring \<Rightarrow> ustring" where
  "trim s = trimEnd (trimStart s)"

definition startsWith :: "ustring \<Rightarrow> ustring \<Rightarrow> bool" where
  "startsWith s p \<longleftrightarrow> take (length p) s = p"

definition endsWith :: "ustring \<Rightarrow> ustring \<Rightarrow> bool" where
  "endsWith s p \<longleftrightarrow> length p \<le> length s \<and> drop (length s - length p) s = p"

text \<open>
  \<^verbatim>\<open>s.indexOf(p, from)\<close>: the least index \<open>i \<ge> from\<close> where \<open>p\<close> occurs in \<open>s\<close>;
  \<open>None\<close> stands for the result \<^verbatim>\<open>-1\<close>.
\<close>

fun indexOf_scan :: "ustring \<Rightarrow> nat \<Rightarrow> ustring \<Rightarrow> nat option" where
  "indexOf_scan p i [] = (if p = [] then Some i else None)"
| "indexOf_scan p i (c # cs) =
     (if startsWith (c # cs) p then Some i else indexOf_scan p (Suc i) cs)"

definition indexOf :: "ustring \<Rightarrow> ustring \<Rightarrow> nat \<Rightarrow> nat option" where
  "indexOf s p from = indexOf_scan p (min from (length s)) (drop from s)"

text \<open>\<^verbatim>\<open>s.slice(a, b)\<close> for indices that are not negative, and \<^verbatim>\<open>s.slice(a)\<close>.\<close>

definition slice :: "ustring \<Rightarrow> nat \<Rightarrow> nat \<Rightarrow> ustring" where
  "slice s a b = take (b - a) (drop a s)"

definition sliceFrom :: "ustring \<Rightarrow> nat \<Rightarrow> ustring" where
  "sliceFrom s a = drop a s"

text \<open>\<^verbatim>\<open>s.split(c)\<close> for a separator of one code unit: never the empty list.\<close>

fun split :: "16 word \<Rightarrow> ustring \<Rightarrow> ustring list" where
  "split c [] = [[]]"
| "split c (x # xs) =
     (if x = c then [] # split c xs
      else (let rest = split c xs in (x # hd rest) # tl rest))"

text \<open>\<^verbatim>\<open>xs.join(sep)\<close>.\<close>

fun join :: "ustring \<Rightarrow> ustring list \<Rightarrow> ustring" where
  "join sep [] = []"
| "join sep [x] = x"
| "join sep (x # y # ys) = x @ sep @ join sep (y # ys)"

text \<open>\<^verbatim>\<open>s.replace(/'/g, '"')\<close>.\<close>

definition replaceQuotes :: "ustring \<Rightarrow> ustring" where
  "replaceQuotes s = map (\<lambda>c. if c = 0x27 then 0x22 else c) s"

text \<open>
  \<^verbatim>\<open>s.replace(/^['"]|['"]$/g, '')\<close>: the scan removes a quote at index 0, and a quote at
  the last index when that is another position.
\<close>

definition isQuote :: "16 word \<Rightarrow> bool" where
  "isQuote c \<longleftrightarrow> c = 0x27 \<or> c = 0x22"

definition stripLeadingQuote :: "ustring \<Rightarrow> ustring" where
  "stripLeadingQuote s = (case s of [] \<Rightarrow> [] | c # cs \<Rightarrow> if isQuote c then cs else s)"

definition stripTrailingQuote :: "ustring \<Rightarrow> ustring" where
  "stripTrailingQuote s = (if s \<noteq> [] \<and> isQuote (last s) then butlast s else s)"

definition stripQuotes :: "ustring \<Rightarrow> ustring" where
  "stripQuotes s = stripTrailingQuote (stripLeadingQuote s)"

text \<open>\<^verbatim>\<open>s.replace(/\s+/g, ' ')\<close>: every maximal run of blanks becomes one space.\<close>

function collapseWhitespace :: "ustring \<Rightarrow> ustring" where
  "collapseWhitespace [] = []"
| "collapseWhitespace (c # cs) =
     (if isWhiteSpace c then 0x20 # collapseWhitespace (dropWhile isWhiteSpace cs)
      else c # collapseWhitespace cs)"
  by pat_completeness auto
termination
  by (relation "measure length") (auto simp: le_imp_less_Suc length_dropWhile_le)

section \<open>JSON.parse and String\<close>

text \<open>
  The values \<^verbatim>\<open>JSON.parse\<close> builds. A number keeps the text it was written with: the
  decimal text \<^verbatim>\<open>String\<close> gives for the double it denotes is floating-point arithmetic
  and is a parameter (\<open>numstr\<close>) of everything below.
\<close>

datatype json =
    JNull
  | JBool bool
  | JNum ustring
  | JStr ustring
  | JArr "json list"
  | JObj "(ustring \<times> json) list"

definition isJsonWs :: "16 word \<Rightarrow> bool" where
  "isJsonWs c \<longleftrightarrow> c = 0x20 \<or> c = 0x09 \<or> c = 0x0A \<or> c = 0x0D"

definition skipWs :: "ustring \<Rightarrow> ustring" where
  "skipWs s = dropWhile isJsonWs s"

definition isDigit :: "16 word \<Rightarrow> bool" where
  "isDigit c \<longleftrightarrow> 0x30 \<le> c \<and> c \<le> 0x39"

definition hexValue :: "16 word \<Rightarrow> 16 word option" where
  "hexValue c =
     (if 0x30 \<le> c \<and> c \<le> 0x39 then Some (c - 0x30)
      else if 0x41 \<le> c \<and> c \<le> 0x46 then Some (c - 0x41 + 10)
      else if 0x61 \<le> c \<and> c \<le> 0x66 then Some (c - 0x61 + 10)
      else None)"

definition hex4 :: "16 word \<Rightarrow> 16 word \<Rightarrow> 16 word \<Rightarrow> 16 word \<Rightarrow> 16 word option" where
  "hex4 a b c d =
     (case (hexValue a, hexValue b, hexValue c, hexValue d) of
        (Some x, Some y, Some z, Some w) \<Rightarrow> Some (x * 0x1000 + y * 0x100 + z * 0x10 + w)
      | _ \<Rightarrow> None)"

text \<open>The single-character escapes of a JSON string.\<close>

definition escapeChar :: "16 word \<Rightarrow> 16 word option" where
  "escapeChar e =
     (if e = 0x22 then Some 0x22
      else if e = 0x5C then Some 0x5C
      else if e = 0x2F then Some 0x2F
      else if e = 0x62 then Some 0x08
      else if e = 0x66 then Some 0x0C
      else if e = 0x6E then Some 0x0A
      else if e = 0x72 then Some 0x0D
      else if e = 0x74 then Some 0x09
      else None)"

text \<open>
  The characters of a JSON string after its opening quote, up to the closing one, with
  the rest of the input. A control character below U+0020, an unknown escape and the end
  of the input are syntax errors.
\<close>

fun parseChars :: "ustring \<Rightarrow> (ustring \<times> ustring) option" where
  "parseChars [] = None"
| "parseChars (c # cs) =
     (if c = 0x22 then Some ([], cs)
      else if c = 0x5C then
        (case cs of
           [] \<Rightarrow> None
         | e # cs' \<Rightarrow>
             if e = 0x75 then
               (case cs' of
                  a # b # c' # d # rest \<Rightarrow>
                    (case hex4 a b c' d of
                       None \<Rightarrow> None
                     | Some w \<Rightarrow>
                         (case parseChars rest of
                            None \<Rightarrow> None
                          | Some (str, r) \<Rightarrow> Some (w # str, r)))
                | _ \<Rightarrow> None)
             else
               (case escapeChar e of
                  None \<Rightarrow> None
                | Some w \<Rightarrow>
                    (case parseChars cs' of
                       None \<Rightarrow> None
                     | Some (str, r) \<Rightarrow> Some (w # str, r))))
      else if c < 0x20 then None
      else (case parseChars cs of
              None \<Rightarrow> None
            | Some (str, r) \<Rightarrow> Some (c # str, r)))"

text \<open>
  A JSON number: an optional minus, \<^verbatim>\<open>0\<close> or a digit from 1 to 9 followed by digits, an
  optional fraction and an optional exponent. The result is the text of the number and the
  rest of the input.
\<close>

definition parseDigits :: "ustring \<Rightarrow> (ustring \<times> ustring) option" where
  "parseDigits s =
     (if takeWhile isDigit s = [] then None
      else Some (takeWhile isDigit s, dropWhile isDigit s))"

definition parseInt :: "ustring \<Rightarrow> (ustring \<times> ustring) option" where
  "parseInt s =
     (case s of
        [] \<Rightarrow> None
      | c # cs \<Rightarrow> if c = 0x30 then Some ([c], cs) else parseDigits s)"

definition parseFrac :: "ustring \<Rightarrow> (ustring \<times> ustring) option" where
  "parseFrac s =
     (case s of
        [] \<Rightarrow> Some ([], s)
      | c # cs \<Rightarrow>
          if c = 0x2E then map_option (\<lambda>(ds, r). (c # ds, r)) (parseDigits cs)
          else Some ([], s))"

definition parseExp :: "ustring \<Rightarrow> (ustring \<times> ustring) option" where
  "parseExp s =
     (case s of
        [] \<Rightarrow> Some ([], s)
      | c # cs \<Rightarrow>
          if c = 0x65 \<or> c = 0x45 then
            (case cs of
               [] \<Rightarrow> None
             | g # cs' \<Rightarrow>
                 if g = 0x2B \<or> g = 0x2D
                 then map_option (\<lambda>(ds, r). (c # g # ds, r)) (parseDigits cs')
                 else map_option (\<lambda>(ds, r). (c # ds, r)) (parseDigits cs))
          else Some ([], s))"

definition parseNumber :: "ustring \<Rightarrow> (ustring \<times> ustring) option" where
  "parseNumber s =
     (let (sign, s1) = (case s of [] \<Rightarrow> ([], s) | c # cs \<Rightarrow> if c = 0x2D then ([c], cs) else ([], s))
      in case parseInt s1 of
           None \<Rightarrow> None
         | Some (ip, s2) \<Rightarrow>
             (case parseFrac s2 of
                None \<Rightarrow> None
              | Some (fp, s3) \<Rightarrow>
                  (case parseExp s3 of
                     None \<Rightarrow> None
                   | Some (ep, s4) \<Rightarrow> Some (sign @ ip @ fp @ ep, s4))))"

section \<open>The value parser\<close>

lemma parseChars_shorter: "parseChars s = Some (str, r) \<Longrightarrow> length r < length s"
proof (induction s arbitrary: str r rule: parseChars.induct)
  case 1
  then show ?case by simp
next
  case (2 c cs)
  then show ?case
    by (fastforce split: if_splits list.splits option.splits)
qed

lemma length_skipWs: "length (skipWs s) \<le> length s"
  by (simp add: skipWs_def length_dropWhile_le)

lemma skipWs_Cons_shorter: "skipWs s = c # r \<Longrightarrow> length r < length s"
  using length_skipWs [of s] by simp

text \<open>
  A JSON value at the head of the input (blanks already skipped), with the rest of the
  input; the elements of an array after \<^verbatim>\<open>[\<close> and the members of an object after \<^verbatim>\<open>{\<close>,
  up to and including the closing bracket. The tests \<open>length r < \<dots>\<close> on the rest a value
  leaves are there for the termination proof; \<open>parseValue_shorter\<close> shows they never fail.
\<close>

function parseValue :: "ustring \<Rightarrow> (json \<times> ustring) option"
  and parseElements :: "ustring \<Rightarrow> (json list \<times> ustring) option"
  and parseMembers :: "ustring \<Rightarrow> ((ustring \<times> json) list \<times> ustring) option"
where
  "parseValue [] = None"
| "parseValue (c # cs) =
     (if c = 0x5B then
        (case skipWs cs of
           [] \<Rightarrow> None
         | d # r \<Rightarrow>
             if d = 0x5D then Some (JArr [], r)
             else map_option (\<lambda>(vs, r'). (JArr vs, r')) (parseElements (d # r)))
      else if c = 0x7B then
        (case skipWs cs of
           [] \<Rightarrow> None
         | d # r \<Rightarrow>
             if d = 0x7D then Some (JObj [], r)
             else map_option (\<lambda>(kvs, r'). (JObj kvs, r')) (parseMembers (d # r)))
      else if c = 0x22 then map_option (\<lambda>(s, r). (JStr s, r)) (parseChars cs)
      else if startsWith (c # cs) (u ''true'') then Some (JBool True, drop 4 (c # cs))
      else if startsWith (c # cs) (u ''false'') then Some (JBool False, drop 5 (c # cs))
      else if startsWith (c # cs) (u ''null'') then Some (JNull, drop 4 (c # cs))
      else map_option (\<lambda>(l, r). (JNum l, r)) (parseNumber (c # cs)))"
| "parseElements [] = None"
| "parseElements (c # cs) =
     (case parseValue (c # cs) of
        None \<Rightarrow> None
      | Some (v, r) \<Rightarrow>
          if length r < length (c # cs) then
            (case skipWs r of
               [] \<Rightarrow> None
             | d # r' \<Rightarrow>
                 if d = 0x2C then
                   (case parseElements (skipWs r') of
                      None \<Rightarrow> None
                    | Some (vs, r'') \<Rightarrow> Some (v # vs, r''))
                 else if d = 0x5D then Some ([v], r')
                 else None)
          else None)"
| "parseMembers [] = None"
| "parseMembers (c # cs) =
     (if c = 0x22 then
        (case parseChars cs of
           None \<Rightarrow> None
         | Some (k, r) \<Rightarrow>
             (case skipWs r of
                [] \<Rightarrow> None
              | d # r1 \<Rightarrow>
                  if d = 0x3A then
                    (case parseValue (skipWs r1) of
                       None \<Rightarrow> None
                     | Some (v, r2) \<Rightarrow>
                         if length r2 < length (skipWs r1) then
                           (case skipWs r2 of
                              [] \<Rightarrow> None
                            | e # r3 \<Rightarrow>
                                if e = 0x2C then
                                  (case parseMembers (skipWs r3) of
                                     None \<Rightarrow> None
                                   | Some (kvs, r4) \<Rightarrow> Some ((k, v) # kvs, r4))
                                else if e = 0x7D then Some ([(k, v)], r3)
                                else None)
                         else None)
                  else None))
      else None)"
  by pat_completeness auto
termination
proof (relation "measure (\<lambda>x. case x of
          Inl s \<Rightarrow> 2 * length s
        | Inr (Inl s) \<Rightarrow> 2 * length s + 1
        | Inr (Inr s) \<Rightarrow> 2 * length s + 1)", goal_cases)
  case 1
  then show ?case by simp
next
  case (2 c cs d r)
  then show ?case using skipWs_Cons_shorter [of cs d r] by simp
next
  case (3 c cs d r)
  then show ?case using skipWs_Cons_shorter [of cs d r] by simp
next
  case (4 c cs)
  then show ?case by simp
next
  case (5 c cs x2 v r d r')
  then show ?case
    using skipWs_Cons_shorter [of r d r'] length_skipWs [of r'] by simp
next
  case (6 c cs x2 k r d r1)
  then show ?case
    using parseChars_shorter [of cs k r] skipWs_Cons_shorter [of r d r1] length_skipWs [of r1]
    by simp
next
  case (7 c cs x2 k r d r1 x2a v r2 e r3)
  then show ?case
    using parseChars_shorter [of cs k r] skipWs_Cons_shorter [of r d r1] length_skipWs [of r1]
      skipWs_Cons_shorter [of r2 e r3] length_skipWs [of r3]
    by simp
qed

text \<open>\<^verbatim>\<open>JSON.parse(s)\<close>; \<open>None\<close> stands for the SyntaxError it throws.\<close>

definition JSON_parse :: "ustring \<Rightarrow> json option" where
  "JSON_parse s =
     (case parseValue (skipWs s) of
        None \<Rightarrow> None
      | Some (v, r) \<Rightarrow> if skipWs r = [] then Some v else None)"

text \<open>
  \<^verbatim>\<open>String(v)\<close> for a value built by \<^verbatim>\<open>JSON.parse\<close>. An array is joined with commas, a
  \<^verbatim>\<open>null\<close> element giving the empty string. An object gives \<^verbatim>\<open>[object Object]\<close>, unless it
  has a key \<^verbatim>\<open>toString\<close> of its own: that value is not callable, the inherited
  \<^verbatim>\<open>valueOf\<close> returns the object, and the conversion throws a TypeError (\<open>None\<close>).
\<close>

fun allSome :: "'a option list \<Rightarrow> 'a list option" where
  "allSome [] = Some []"
| "allSome (None # xs) = None"
| "allSome (Some x # xs) = map_option ((#) x) (allSome xs)"

fun js_String :: "(ustring \<Rightarrow> ustring) \<Rightarrow> json \<Rightarrow> ustring option" where
  "js_String numstr JNull = Some (u ''null'')"
| "js_String numstr (JBool b) = Some (if b then u ''true'' else u ''false'')"
| "js_String numstr (JNum l) = Some (numstr l)"
| "js_String numstr (JStr s) = Some s"
| "js_String numstr (JArr vs) =
     map_option (join (u '',''))
       (allSome (map (\<lambda>v. if v = JNull then Some [] else js_String numstr v) vs))"
| "js_String numstr (JObj kvs) =
     (if u ''toString'' \<in> set (map fst kvs) then None else Some (u ''[object Object]''))"

section \<open>compactStrings\<close>

text \<open>
  The values come from \<^verbatim>\<open>JSON.parse\<close>, so \<^verbatim>\<open>undefined\<close> does not occur. The result is
  \<open>None\<close> when \<^verbatim>\<open>String(value)\<close> throws.
\<close>

fun compactStrings :: "(ustring \<Rightarrow> ustring) \<Rightarrow> json list \<Rightarrow> ustring list option" where
  "compactStrings numstr [] = Some []"
| "compactStrings numstr (v # vs) =
     (if v = JNull then compactStrings numstr vs
      else
        (case js_String numstr v of
           None \<Rightarrow> None
         | Some s \<Rightarrow>
             (let normalized = trim s
              in case compactStrings numstr vs of
                   None \<Rightarrow> None
                 | Some rest \<Rightarrow>
                     Some (if length normalized > 0 then normalized # rest else rest))))"

section \<open>extractMetadata\<close>

text \<open>
  The three variables of the loop over the lines of the front matter: \<^verbatim>\<open>summaryLine\<close>,
  \<^verbatim>\<open>readWhen\<close> (here \<open>readWhenSoFar\<close>) and \<^verbatim>\<open>collectingField\<close>.
\<close>

datatype field = read_when

record scan =
  summaryLine :: "ustring option"
  readWhenSoFar :: "ustring list"
  collectingField :: "field option"

definition initialScan :: scan where
  "initialScan = \<lparr>summaryLine = None, readWhenSoFar = [], collectingField = None\<rparr>"

text \<open>
  What an inline \<^verbatim>\<open>read_when:\<close> value adds to the hints: the \<^verbatim>\<open>try\<close> block. An error
  thrown by \<^verbatim>\<open>JSON.parse\<close> or by \<^verbatim>\<open>compactStrings\<close> is caught and nothing is pushed.
\<close>

definition inlineHints :: "(ustring \<Rightarrow> ustring) \<Rightarrow> ustring \<Rightarrow> ustring list" where
  "inlineHints numstr inline =
     (if startsWith inline (u ''['') \<and> endsWith inline (u '']'') then
        (case JSON_parse (replaceQuotes inline) of
           Some (JArr parsed) \<Rightarrow>
             (case compactStrings numstr parsed of
                Some hints \<Rightarrow> hints
              | None \<Rightarrow> [])
         | _ \<Rightarrow> [])
      else [])"

text \<open>The body of the loop, for one line.\<close>

definition processLine :: "(ustring \<Rightarrow> ustring) \<Rightarrow> scan \<Rightarrow> ustring \<Rightarrow> scan" where
  "processLine numstr st rawLine =
     (let line = trim rawLine in
      if startsWith line (u ''summary:'') then
        st\<lparr>summaryLine := Some line, collectingField := None\<rparr>
      else if startsWith line (u ''read_when:'') then
        (let inline = trim (sliceFrom line (length (u ''read_when:'')))
         in st\<lparr>collectingField := Some read_when,
               readWhenSoFar := readWhenSoFar st @ inlineHints numstr inline\<rparr>)
      else if collectingField st = Some read_when then
        (if startsWith line (u ''- '') then
           (let hint = trim (sliceFrom line 2)
            in if hint \<noteq> [] then st\<lparr>readWhenSoFar := readWhenSoFar st @ [hint]\<rparr> else st)
         else if line = [] then st
         else st\<lparr>collectingField := None\<rparr>)
      else st)"

definition scanLines :: "(ustring \<Rightarrow> ustring) \<Rightarrow> ustring list \<Rightarrow> scan" where
  "scanLines numstr lines = foldl (processLine numstr) initialScan lines"

text \<open>The object \<^verbatim>\<open>extractMetadata\<close> returns.\<close>

record metadata =
  summary :: "ustring option"
  readWhen :: "ustring list"
  error :: "ustring option"

text \<open>\<^verbatim>\<open>summaryValue\<close> and \<^verbatim>\<open>normalized\<close>, from the summary line.\<close>

definition summaryValue :: "ustring \<Rightarrow> ustring" where
  "summaryValue line = trim (sliceFrom line (length (u ''summary:'')))"

definition normalizeSummary :: "ustring \<Rightarrow> ustring" where
  "normalizeSummary v = trim (collapseWhitespace (stripQuotes v))"

text \<open>The end of \<^verbatim>\<open>extractMetadata\<close>, after the loop.\<close>

definition finishMetadata :: "scan \<Rightarrow> metadata" where
  "finishMetadata st =
     (case summaryLine st of
        None \<Rightarrow>
          \<lparr>summary = None, readWhen = readWhenSoFar st, error = Some (u ''summary key missing'')\<rparr>
      | Some line \<Rightarrow>
          (let normalized = normalizeSummary (summaryValue line)
           in if normalized = [] then
                \<lparr>summary = None, readWhen = readWhenSoFar st, error = Some (u ''summary is empty'')\<rparr>
              else
                \<lparr>summary = Some normalized, readWhen = readWhenSoFar st, error = None\<rparr>))"

text \<open>
  \<^verbatim>\<open>extractMetadata\<close>, from the content of the file (what \<^verbatim>\<open>readFileSync\<close> returned).
\<close>

definition extractMetadata :: "(ustring \<Rightarrow> ustring) \<Rightarrow> ustring \<Rightarrow> metadata" where
  "extractMetadata numstr content =
     (if \<not> startsWith content (u ''---'') then
        \<lparr>summary = None, readWhen = [], error = Some (u ''missing front matter'')\<rparr>
      else
        (case indexOf content (u ''\<newline>---'') 3 of
           None \<Rightarrow>
             \<lparr>summary = None, readWhen = [], error = Some (u ''unterminated front matter'')\<rparr>
         | Some endIndex \<Rightarrow>
             (let frontMatter = trim (slice content 3 endIndex);
                  lines = split 0x0A frontMatter
              in finishMetadata (scanLines numstr lines))))"

section \<open>The report\<close>


section \<open>Paths\<close>

text \<open>
  An absolute, normalized POSIX path is the list of its segments from the root.
  \<open>resolveFrom base p\<close> is \<^verbatim>\<open>path.resolve(base, p)\<close> for such a \<open>base\<close>: an absolute \<open>p\<close>
  starts again from the root, empty and \<^verbatim>\<open>.\<close> segments are dropped, \<^verbatim>\<open>..\<close> removes the last
  segment.
\<close>

type_synonym path = "ustring list"

definition applySegment :: "path \<Rightarrow> ustring \<Rightarrow> path" where
  "applySegment p seg =
     (if seg = [] \<or> seg = u ''.'' then p
      else if seg = u ''..'' then butlast p
      else p @ [seg])"

definition resolveFrom :: "path \<Rightarrow> ustring \<Rightarrow> path" where
  "resolveFrom base p =
     foldl applySegment (if startsWith p (u ''/'') then [] else base) (split 0x2F p)"

text \<open>
  \<^verbatim>\<open>path.relative(from, to)\<close>: the common leading segments are dropped, every segment left
  of \<open>from\<close> becomes \<^verbatim>\<open>..\<close>, and the segments left of \<open>to\<close> follow.
\<close>

fun relativeSegments :: "path \<Rightarrow> path \<Rightarrow> ustring list" where
  "relativeSegments [] bs = bs"
| "relativeSegments (a # as) [] = replicate (length (a # as)) (u ''..'')"
| "relativeSegments (a # as) (b # bs) =
     (if a = b then relativeSegments as bs
      else replicate (length (a # as)) (u ''..'') @ (b # bs))"

definition relative :: "path \<Rightarrow> path \<Rightarrow> ustring" where
  "relative from to = join (u ''/'') (relativeSegments from to)"

section \<open>resolveDocsDir\<close>

fun readFlagValue :: "ustring list \<Rightarrow> ustring \<Rightarrow> ustring option" where
  "readFlagValue [] flag = None"
| "readFlagValue (a # rest) flag =
     (if a = flag then
        (case rest of
           [] \<Rightarrow> Some []
         | v # _ \<Rightarrow> if v = [] \<or> startsWith v (u ''-'') then Some [] else Some v)
      else readFlagValue rest flag)"

definition isInsideRepoRoot :: "path \<Rightarrow> path \<Rightarrow> bool" where
  "isInsideRepoRoot repoRoot cwd =
     (let rel = relative repoRoot cwd
      in rel = [] \<or> (\<not> startsWith rel (u ''..'') \<and> \<not> startsWith rel (u ''../'')))"

text \<open>
  The ways \<^verbatim>\<open>resolveDocsDir\<close> ends: it returns the directory, or prints the usage and
  exits with 0, or prints an error and exits with 1.
\<close>

datatype resolution = Docs path | Usage | Fatal ustring

definition notFoundMessage :: ustring where
  "notFoundMessage =
     u ''Error: docs directory not found. Provide --docs <path>, --root <path>, or set DOCS_DIR/DOCS_ROOT.''"

text \<open>
  The inputs: the repository root (the parent of the directory of the script), the
  arguments after the script name, the two environment variables, the working directory
  and the file system (\<^verbatim>\<open>existsSync\<close>).
\<close>

definition resolveDocsDir ::
  "path \<Rightarrow> ustring list \<Rightarrow> ustring option \<Rightarrow> ustring option \<Rightarrow> path \<Rightarrow> (path \<Rightarrow> bool) \<Rightarrow> resolution"
where
  "resolveDocsDir repoRoot args DOCS_DIR DOCS_ROOT cwd existsSync =
     (if u ''--help'' \<in> set args \<or> u ''-h'' \<in> set args then Usage
      else
        (case readFlagValue args (u ''--docs'') of
           Some docsArg \<Rightarrow>
             if docsArg = [] then Fatal (u ''Error: --docs requires a path.'')
             else Docs (resolveFrom cwd docsArg)
         | None \<Rightarrow>
             (case readFlagValue args (u ''--root'') of
                Some rootArg \<Rightarrow>
                  if rootArg = [] then Fatal (u ''Error: --root requires a path.'')
                  else Docs (resolveFrom (resolveFrom cwd rootArg) (u ''docs''))
              | None \<Rightarrow>
                  (let docsDirEnv = map_option trim DOCS_DIR;
                       docsRootEnv = map_option trim DOCS_ROOT;
                       cwdDocs = resolveFrom cwd (u ''docs'');
                       repoDocs = resolveFrom repoRoot (u ''docs'')
                   in if docsDirEnv \<noteq> None \<and> docsDirEnv \<noteq> Some [] then
                        Docs (resolveFrom cwd (the docsDirEnv))
                      else if docsRootEnv \<noteq> None \<and> docsRootEnv \<noteq> Some [] then
                        Docs (resolveFrom (resolveFrom cwd (the docsRootEnv)) (u ''docs''))
                      else if existsSync cwdDocs then Docs cwdDocs
                      else if isInsideRepoRoot repoRoot cwd \<and> existsSync repoDocs then
                        Docs repoDocs
                      else Fatal notFoundMessage))))"

section \<open>walkMarkdownFiles\<close>

text \<open>
  An entry of \<^verbatim>\<open>readdirSync(dir, { withFileTypes: true })\<close>: a file, a directory with its
  own entries, or anything else (neither \<^verbatim>\<open>isFile()\<close> nor \<^verbatim>\<open>isDirectory()\<close>).
\<close>

datatype dirent =
    File ustring
  | Directory ustring "dirent list"
  | Other ustring

definition EXCLUDED_DIRS :: "ustring set" where
  "EXCLUDED_DIRS = {u ''archive'', u ''research''}"

text \<open>
  \<open>rel\<close> is the path of \<^verbatim>\<open>dir\<close> below \<^verbatim>\<open>base\<close>, so \<^verbatim>\<open>relative(base, join(dir, name))\<close> is
  the segments of \<open>rel\<close> and \<open>name\<close> joined with slashes. \<open>cmp\<close> is the comparison of
  \<^verbatim>\<open>localeCompare\<close>, a parameter; \<^verbatim>\<open>sort\<close> is stable, as \<^verbatim>\<open>Array.prototype.sort\<close> is.
\<close>

definition relativePath :: "ustring list \<Rightarrow> ustring \<Rightarrow> ustring" where
  "relativePath rel name = join (u ''/'') (rel @ [name])"

fun walkMarkdownFiles :: "ustring comparator \<Rightarrow> ustring list \<Rightarrow> dirent list \<Rightarrow> ustring list"
  and visitEntry :: "ustring comparator \<Rightarrow> ustring list \<Rightarrow> dirent \<Rightarrow> ustring list"
where
  "walkMarkdownFiles cmp rel entries =
     Sorting_Algorithms.sort cmp (concat (map (visitEntry cmp rel) entries))"
| "visitEntry cmp rel (File name) =
     (if startsWith name (u ''.'') then []
      else if endsWith name (u ''.md'') then [relativePath rel name]
      else [])"
| "visitEntry cmp rel (Directory name children) =
     (if startsWith name (u ''.'') then []
      else if name \<in> EXCLUDED_DIRS then []
      else walkMarkdownFiles cmp (rel @ [name]) children)"
| "visitEntry cmp rel (Other name) = []"

text \<open>
  The relative paths the walk collects, in the order of the directory listings, before
  any sorting.
\<close>

fun collectedPaths :: "ustring list \<Rightarrow> dirent list \<Rightarrow> ustring list"
  and collectedEntry :: "ustring list \<Rightarrow> dirent \<Rightarrow> ustring list"
where
  "collectedPaths rel entries = concat (map (collectedEntry rel) entries)"
| "collectedEntry rel (File name) =
     (if startsWith name (u ''.'') then []
      else if endsWith name (u ''.md'') then [relativePath rel name]
      else [])"
| "collectedEntry rel (Directory name children) =
     (if startsWith name (u ''.'') then []
      else if name \<in> EXCLUDED_DIRS then []
      else collectedPaths (rel @ [name]) children)"
| "collectedEntry rel (Other name) = []"

section \<open>Notions used in the statements\<close>

text \<open>
  A line of the front matter that the loop takes for the summary, or for the start of
  the hints.
\<close>

definition isSummaryLine :: "ustring \<Rightarrow> bool" where
  "isSummaryLine rawLine \<longleftrightarrow> startsWith (trim rawLine) (u ''summary:'')"

definition isReadWhenLine :: "ustring \<Rightarrow> bool" where
  "isReadWhenLine rawLine \<longleftrightarrow> startsWith (trim rawLine) (u ''read_when:'')"


text \<open>
  Two lists with the same elements, and the same order among the elements the
  comparison takes for equal: what a stable sort cannot tell apart.
\<close>

definition sameStableOrder :: "'a comparator \<Rightarrow> 'a list \<Rightarrow> 'a list \<Rightarrow> bool" where
  "sameStableOrder cmp xs ys \<longleftrightarrow>
     mset xs = mset ys \<and>
     (\<forall>a. filter (\<lambda>b. compare cmp a b = Equiv) xs = filter (\<lambda>b. compare cmp a b = Equiv) ys)"






text \<open>
  An environment variable that is not set, or blank once trimmed.
\<close>

definition unset :: "ustring option \<Rightarrow> bool" where
  "unset v \<longleftrightarrow> (case v of None \<Rightarrow> True | Some s \<Rightarrow> trim s = [])"

section \<open>Evaluation on concrete inputs\<close>

lemmas string_defs = u_def startsWith_def endsWith_def indexOf_def slice_def sliceFrom_def
  trim_def trimStart_def trimEnd_def isWhiteSpace_def replaceQuotes_def isQuote_def
  stripLeadingQuote_def stripTrailingQuote_def stripQuotes_def

lemmas json_defs = isJsonWs_def skipWs_def isDigit_def JSON_parse_def

lemmas extract_defs = inlineHints_def processLine_def scanLines_def initialScan_def
  summaryValue_def normalizeSummary_def finishMetadata_def extractMetadata_def

section \<open>Facts about the string functions\<close>

lemma startsWith_Cons:
  "startsWith s (p # ps) \<longleftrightarrow> (\<exists>cs. s = p # cs \<and> startsWith cs ps)"
  by (cases s) (auto simp: startsWith_def)

lemma startsWith_Nil [simp]: "startsWith s []"
  by (simp add: startsWith_def)

lemma startsWith_length:
  assumes "startsWith s p"
  shows "length p \<le> length s"
proof -
  from assms have "take (length p) s = p" by (simp add: startsWith_def)
  then have "length (take (length p) s) = length p" by simp
  then show ?thesis by simp
qed

lemma indexOf_scan_Some:
  "indexOf_scan p i s = Some j \<Longrightarrow>
     i \<le> j \<and> startsWith (drop (j - i) s) p \<and> (\<forall>k < j - i. \<not> startsWith (drop k s) p)"
proof (induction s arbitrary: i)
  case Nil
  then show ?case by (simp split: if_splits)
next
  case (Cons c cs)
  show ?case
  proof (cases "startsWith (c # cs) p")
    case True
    with Cons.prems show ?thesis by simp
  next
    case False
    with Cons.prems have rec: "indexOf_scan p (Suc i) cs = Some j" by simp
    from Cons.IH [OF rec] have ih: "Suc i \<le> j" "startsWith (drop (j - Suc i) cs) p"
      "\<forall>k < j - Suc i. \<not> startsWith (drop k cs) p" by simp_all
    from ih(1) have eq: "j - i = Suc (j - Suc i)" by simp
    have "\<not> startsWith (drop k (c # cs)) p" if "k < j - i" for k
    proof (cases k)
      case 0
      with False show ?thesis by simp
    next
      case (Suc k')
      with that eq ih(3) show ?thesis by simp
    qed
    with ih eq show ?thesis by simp
  qed
qed

lemma indexOf_scan_None:
  "indexOf_scan p i s = None \<Longrightarrow> \<not> startsWith (drop k s) p"
proof (induction s arbitrary: i k)
  case Nil
  then show ?case by (auto simp: startsWith_def split: if_splits)
next
  case (Cons c cs)
  then show ?case
    by (cases k) (auto split: if_splits)
qed

lemma closing_delimiter_found:
  assumes "startsWith content (u ''---'')" and "indexOf content p 3 = Some e"
  shows "3 \<le> e \<and> startsWith (drop e content) p
         \<and> (\<forall>k. 3 \<le> k \<and> k < e \<longrightarrow> \<not> startsWith (drop k content) p)"
proof -
  have "3 \<le> length content"
    using startsWith_length [OF assms(1)] by (simp add: u_def)
  with assms(2) have scan: "indexOf_scan p 3 (drop 3 content) = Some e"
    by (simp add: indexOf_def)
  from indexOf_scan_Some [OF scan] have a: "3 \<le> e"
    and b: "startsWith (drop (e - 3) (drop 3 content)) p"
    and c: "\<forall>k < e - 3. \<not> startsWith (drop k (drop 3 content)) p" by blast+
  from a have "e - 3 + 3 = e" by simp
  with b have b': "startsWith (drop e content) p" by simp
  have "\<not> startsWith (drop k content) p" if "3 \<le> k" "k < e" for k
  proof -
    from that have "k - 3 < e - 3" by simp
    with c have "\<not> startsWith (drop (k - 3) (drop 3 content)) p" by blast
    moreover from that(1) have "k - 3 + 3 = k" by simp
    ultimately show ?thesis by simp
  qed
  with a b' show ?thesis by simp
qed

lemma closing_delimiter_absent:
  assumes "startsWith content (u ''---'')" and "indexOf content p 3 = None"
  shows "\<forall>k\<ge>3. \<not> startsWith (drop k content) p"
proof -
  have "3 \<le> length content"
    using startsWith_length [OF assms(1)] by (simp add: u_def)
  with assms(2) have scan: "indexOf_scan p 3 (drop 3 content) = None"
    by (simp add: indexOf_def)
  have "\<not> startsWith (drop k content) p" if "3 \<le> k" for k
    using indexOf_scan_None [OF scan, of "k - 3"] that by simp
  then show ?thesis by simp
qed


















section \<open>The value parser consumes its input\<close>

text \<open>
  Every parser leaves a rest shorter than its input, so the tests on the lengths in
  \<open>parseElements\<close> and \<open>parseMembers\<close> always succeed: both functions satisfy the
  equations without them.
\<close>

lemma parseDigits_shorter: "parseDigits s = Some (ds, r) \<Longrightarrow> length r < length s"
proof -
  assume a: "parseDigits s = Some (ds, r)"
  then have "takeWhile isDigit s \<noteq> []" and r: "r = dropWhile isDigit s"
    by (auto simp: parseDigits_def split: if_splits)
  then have "0 < length (takeWhile isDigit s)" by simp
  moreover have "length (takeWhile isDigit s) + length (dropWhile isDigit s) = length s"
    by (metis length_append takeWhile_dropWhile_id)
  ultimately have "length (dropWhile isDigit s) < length s" by linarith
  then show ?thesis using r by simp
qed

lemma parseInt_shorter: "parseInt s = Some (ds, r) \<Longrightarrow> length r < length s"
  by (auto simp: parseInt_def split: list.splits if_splits dest: parseDigits_shorter)

lemma parseFrac_shorter: "parseFrac s = Some (ds, r) \<Longrightarrow> length r \<le> length s"
  by (auto simp: parseFrac_def split: list.splits if_splits dest!: parseDigits_shorter)

lemma parseExp_shorter: "parseExp s = Some (ds, r) \<Longrightarrow> length r \<le> length s"
  by (auto simp: parseExp_def split: list.splits if_splits dest!: parseDigits_shorter)

lemma parseNumber_shorter:
  assumes "parseNumber s = Some (l, r)"
  shows "length r < length s"
proof -
  obtain sign s1 where s1: "(case s of [] \<Rightarrow> ([], s) | c # cs \<Rightarrow> if c = 0x2D then ([c], cs) else ([], s)) = (sign, s1)"
    by fastforce
  then have le1: "length s1 \<le> length s"
    by (auto split: list.splits if_splits)
  from assms s1 obtain ip s2 fp s3 ep where
    "parseInt s1 = Some (ip, s2)" "parseFrac s2 = Some (fp, s3)" "parseExp s3 = Some (ep, r)"
    by (auto simp: parseNumber_def split: option.splits)
  then have "length s2 < length s1" "length s3 \<le> length s2" "length r \<le> length s3"
    by (auto dest: parseInt_shorter parseFrac_shorter parseExp_shorter)
  with le1 show ?thesis by simp
qed

lemma parseValue_shorter:
  "parseValue s = Some (v, r) \<Longrightarrow> length r < length s"
  "parseElements s = Some (vs, r) \<Longrightarrow> length r < length s"
  "parseMembers s = Some (kvs, r) \<Longrightarrow> length r < length s"
proof (induction s and s and s arbitrary: v r and vs r and kvs r
    rule: parseValue_parseElements_parseMembers.induct)
  case 1
  then show ?case by simp
next
  case (2 c cs)
  note [simp del] = parseElements.simps parseMembers.simps
  show ?case
  proof (cases "c = 0x5B")
    case True
    from "2.prems" True obtain d r0 where sk: "skipWs cs = d # r0"
      by (auto split: list.splits)
    have l: "length r0 < length cs" using sk by (rule skipWs_Cons_shorter)
    show ?thesis
    proof (cases "d = 0x5D")
      case d: True
      with "2.prems" True sk have "r = r0" by simp
      with l show ?thesis by simp
    next
      case d: False
      with "2.prems" True sk obtain vs where "parseElements (d # r0) = Some (vs, r)"
        by auto
      from "2.IH"(1) [OF True sk d this] l show ?thesis by simp
    qed
  next
    case nb: False
    show ?thesis
    proof (cases "c = 0x7B")
      case True
      from "2.prems" nb True obtain d r0 where sk: "skipWs cs = d # r0"
        by (auto split: list.splits)
      have l: "length r0 < length cs" using sk by (rule skipWs_Cons_shorter)
      show ?thesis
      proof (cases "d = 0x7D")
        case d: True
        with "2.prems" nb True sk have "r = r0" by simp
        with l show ?thesis by simp
      next
        case d: False
        with "2.prems" nb True sk obtain kvs where "parseMembers (d # r0) = Some (kvs, r)"
          by auto
        from "2.IH"(2) [OF nb True sk d this] l show ?thesis by simp
      qed
    next
      case False
      with nb "2.prems" show ?thesis
        by (auto split: if_splits dest: parseChars_shorter parseNumber_shorter)
    qed
  qed
next
  case 3
  then show ?case by simp
next
  case (4 c cs)
  note [simp del] = parseValue.simps
  from "4.prems" obtain v r0 where pv: "parseValue (c # cs) = Some (v, r0)"
    and g: "length r0 < length (c # cs)"
    by (auto split: option.splits if_splits)
  from "4.prems" pv g obtain d r' where sk: "skipWs r0 = d # r'"
    by (auto split: list.splits)
  have l1: "length r' < length r0" using sk by (rule skipWs_Cons_shorter)
  show ?case
  proof (cases "d = 0x2C")
    case True
    with "4.prems" pv g sk obtain vs' where rec: "parseElements (skipWs r') = Some (vs', r)"
      by (auto split: option.splits)
    from "4.IH"(2) [OF pv refl g sk True rec] have "length r < length (skipWs r')" .
    with length_skipWs [of r'] l1 g show ?thesis by simp
  next
    case False
    with "4.prems" pv g sk have "r = r'" by (auto split: if_splits)
    with l1 g show ?thesis by simp
  qed
next
  case 5
  then show ?case by simp
next
  case (6 c cs)
  note [simp del] = parseValue.simps
  from "6.prems" have c: "c = 0x22" by (auto split: if_splits)
  with "6.prems" obtain k r0 where pc: "parseChars cs = Some (k, r0)"
    by (auto split: option.splits)
  with "6.prems" c obtain d r1 where sk: "skipWs r0 = d # r1" and d: "d = 0x3A"
    by (auto split: list.splits if_splits)
  with "6.prems" c pc obtain v r2 where pv: "parseValue (skipWs r1) = Some (v, r2)"
    and g: "length r2 < length (skipWs r1)"
    by (auto split: option.splits if_splits)
  with "6.prems" c pc sk d obtain e r3 where sk2: "skipWs r2 = e # r3"
    by (auto split: list.splits)
  have bound: "length (skipWs r1) < length (c # cs)"
    using parseChars_shorter [OF pc] skipWs_Cons_shorter [OF sk] length_skipWs [of r1] by simp
  have l3: "length r3 < length r2" using sk2 by (rule skipWs_Cons_shorter)
  show ?case
  proof (cases "e = 0x2C")
    case True
    with "6.prems" c pc sk d pv g sk2 obtain kvs' where
      rec: "parseMembers (skipWs r3) = Some (kvs', r)"
      by (auto split: option.splits)
    from "6.IH"(2) [OF c pc refl sk d pv refl g sk2 True rec]
    have "length r < length (skipWs r3)" .
    with length_skipWs [of r3] l3 g bound show ?thesis by simp
  next
    case False
    with "6.prems" c pc sk d pv g sk2 have "r = r3" by (auto split: if_splits)
    with l3 g bound show ?thesis by simp
  qed
qed

lemma parseElements_unguarded:
  "parseElements (c # cs) =
     (case parseValue (c # cs) of
        None \<Rightarrow> None
      | Some (v, r) \<Rightarrow>
          (case skipWs r of
             [] \<Rightarrow> None
           | d # r' \<Rightarrow>
               if d = 0x2C then
                 (case parseElements (skipWs r') of
                    None \<Rightarrow> None
                  | Some (vs, r'') \<Rightarrow> Some (v # vs, r''))
               else if d = 0x5D then Some ([v], r')
               else None))"
  using parseValue_shorter(1) [of "c # cs"]
  by (auto simp del: parseValue.simps split: option.splits)

lemma parseMembers_unguarded:
  "parseMembers (c # cs) =
     (if c = 0x22 then
        (case parseChars cs of
           None \<Rightarrow> None
         | Some (k, r) \<Rightarrow>
             (case skipWs r of
                [] \<Rightarrow> None
              | d # r1 \<Rightarrow>
                  if d = 0x3A then
                    (case parseValue (skipWs r1) of
                       None \<Rightarrow> None
                     | Some (v, r2) \<Rightarrow>
                         (case skipWs r2 of
                            [] \<Rightarrow> None
                          | e # r3 \<Rightarrow>
                              if e = 0x2C then
                                (case parseMembers (skipWs r3) of
                                   None \<Rightarrow> None
                                 | Some (kvs, r4) \<Rightarrow> Some ((k, v) # kvs, r4))
                              else if e = 0x7D then Some ([(k, v)], r3)
                              else None))
                  else None))
      else None)"
  using parseValue_shorter(1)
  by (auto simp del: parseValue.simps split: option.splits list.splits)

section \<open>Facts about the loop over the lines\<close>

lemma readWhen_not_summary: "isReadWhenLine l \<Longrightarrow> \<not> isSummaryLine l"
  by (auto simp: isReadWhenLine_def isSummaryLine_def u_def startsWith_Cons)

lemma processLine_summary:
  "isSummaryLine l \<Longrightarrow>
   processLine numstr st l = st\<lparr>summaryLine := Some (trim l), collectingField := None\<rparr>"
  by (simp add: processLine_def isSummaryLine_def)

lemma processLine_not_summary:
  "\<not> isSummaryLine l \<Longrightarrow> summaryLine (processLine numstr st l) = summaryLine st"
  by (simp add: processLine_def isSummaryLine_def Let_def)

lemma processLine_readWhen:
  "isReadWhenLine l \<Longrightarrow>
   processLine numstr st l =
     st\<lparr>collectingField := Some read_when,
        readWhenSoFar := readWhenSoFar st @
          inlineHints numstr (trim (sliceFrom (trim l) (length (u ''read_when:''))))\<rparr>"
  using readWhen_not_summary [of l]
  by (simp add: processLine_def isReadWhenLine_def isSummaryLine_def Let_def)

lemma bare_read_when:
  "processLine numstr st (u ''read_when:'') = st\<lparr>collectingField := Some read_when\<rparr>"
  by (simp add: string_defs extract_defs)

lemma summaryLine_foldl:
  "summaryLine (foldl (processLine numstr) st lines) =
     (if filter isSummaryLine lines = [] then summaryLine st
      else Some (trim (last (filter isSummaryLine lines))))"
proof (induction lines arbitrary: st)
  case Nil
  then show ?case by simp
next
  case (Cons l ls)
  show ?case
  proof (cases "isSummaryLine l")
    case True
    then show ?thesis
      by (simp add: Cons.IH processLine_summary)
  next
    case False
    then show ?thesis
      by (simp add: Cons.IH processLine_not_summary)
  qed
qed

lemma summaryLine_scanLines:
  "filter isSummaryLine lines \<noteq> [] \<Longrightarrow>
   summaryLine (scanLines numstr lines) = Some (trim (last (filter isSummaryLine lines)))"
  by (simp add: scanLines_def summaryLine_foldl)

lemma extractMetadata_delimited:
  "startsWith content (u ''---'') \<Longrightarrow> indexOf content (u ''\<newline>---'') 3 = Some e \<Longrightarrow>
   extractMetadata numstr content =
     finishMetadata (scanLines numstr (split 0x0A (trim (slice content 3 e))))"
  by (simp add: extractMetadata_def)

lemma readWhen_finishMetadata [simp]: "readWhen (finishMetadata st) = readWhenSoFar st"
  by (simp add: finishMetadata_def Let_def split: option.splits)


lemma error_finishMetadata_cases:
  "error (finishMetadata st) = None \<or>
   error (finishMetadata st) = Some (u ''summary key missing'') \<or>
   error (finishMetadata st) = Some (u ''summary is empty'')"
  by (cases "summaryLine st") (simp_all add: finishMetadata_def Let_def)



section \<open>Facts about the walk\<close>

lemma sameStableOrder_refl: "sameStableOrder cmp xs xs"
  by (simp add: sameStableOrder_def)

lemma sameStableOrder_sort: "sameStableOrder cmp (Sorting_Algorithms.sort cmp xs) xs"
  by (simp add: sameStableOrder_def stable_sort)

lemma sameStableOrder_trans:
  "sameStableOrder cmp xs ys \<Longrightarrow> sameStableOrder cmp ys zs \<Longrightarrow> sameStableOrder cmp xs zs"
  by (simp add: sameStableOrder_def)

lemma sameStableOrder_append:
  "sameStableOrder cmp xs ys \<Longrightarrow> sameStableOrder cmp xs' ys' \<Longrightarrow>
   sameStableOrder cmp (xs @ xs') (ys @ ys')"
  by (simp add: sameStableOrder_def)

lemma sameStableOrder_concat:
  "(\<And>e. e \<in> set es \<Longrightarrow> sameStableOrder cmp (f e) (g e)) \<Longrightarrow>
   sameStableOrder cmp (concat (map f es)) (concat (map g es))"
proof (induction es)
  case Nil
  then show ?case by (simp add: sameStableOrder_refl)
next
  case (Cons e es)
  then show ?case by (simp add: sameStableOrder_append)
qed

lemma sort_sameStableOrder:
  assumes "sameStableOrder cmp xs ys"
  shows "Sorting_Algorithms.sort cmp xs = Sorting_Algorithms.sort cmp ys"
proof (rule sort_eqI)
  show "mset xs = mset (Sorting_Algorithms.sort cmp ys)"
    using assms by (simp add: sameStableOrder_def)
  show "Sorting_Algorithms.sorted cmp (Sorting_Algorithms.sort cmp ys)" by simp
  show "filter (\<lambda>b. compare cmp a b = Equiv) xs =
        filter (\<lambda>b. compare cmp a b = Equiv) (Sorting_Algorithms.sort cmp ys)" for a
    using assms by (simp add: sameStableOrder_def stable_sort)
qed

lemma walk_sameStableOrder:
  "sameStableOrder cmp (walkMarkdownFiles cmp rel entries) (collectedPaths rel entries)"
  "sameStableOrder cmp (visitEntry cmp rel e) (collectedEntry rel e)"
proof (induction cmp rel entries and cmp rel e rule: walkMarkdownFiles_visitEntry.induct)
  case (1 cmp rel entries)
  have "sameStableOrder cmp (concat (map (visitEntry cmp rel) entries))
          (concat (map (collectedEntry rel) entries))"
    using "1.IH" by (rule sameStableOrder_concat)
  then show ?case
    using sameStableOrder_sort sameStableOrder_trans by fastforce
next
  case (2 cmp rel name)
  then show ?case by (simp add: sameStableOrder_refl)
next
  case (3 cmp rel name children)
  then show ?case by (simp add: sameStableOrder_refl)
next
  case (4 cmp rel name)
  then show ?case by (simp add: sameStableOrder_refl)
qed



section \<open>Facts about the resolver\<close>

lemma relativeSegments_outside:
  "\<not> prefix repoRoot cwd \<Longrightarrow> \<exists>rest. relativeSegments repoRoot cwd = u ''..'' # rest"
  by (induction repoRoot cwd rule: relativeSegments.induct) auto

lemma join_dotdot: "startsWith (join sep (u ''..'' # rest)) (u ''..'')"
  by (cases rest) (simp_all add: startsWith_def u_def)

lemma isInsideRepoRoot_prefix:
  assumes "isInsideRepoRoot repoRoot cwd"
  shows "prefix repoRoot cwd"
proof (rule ccontr)
  assume "\<not> prefix repoRoot cwd"
  then obtain rest where "relativeSegments repoRoot cwd = u ''..'' # rest"
    using relativeSegments_outside by blast
  then have sw: "startsWith (relative repoRoot cwd) (u ''..'')"
    by (simp add: relative_def join_dotdot)
  then have "relative repoRoot cwd \<noteq> []"
    by (auto simp: startsWith_def u_def)
  with sw assms show False
    by (simp add: isInsideRepoRoot_def Let_def)
qed

lemma readFlagValue_absent: "flag \<notin> set args \<Longrightarrow> readFlagValue args flag = None"
  by (induction args) auto

text \<open>
  A directory below the root whose name starts with two dots is taken for a path that
  leaves the root.
\<close>

lemma descendant_named_with_two_dots_is_outside:
  "\<not> isInsideRepoRoot [u ''repo''] [u ''repo'', u ''..cache'']"
  by (simp add: isInsideRepoRoot_def relative_def string_defs)

section \<open>The claims\<close>

subsection \<open>C1: hints of a file whose extraction fails\<close>




subsection \<open>C2: the block with a quoted list item\<close>

text \<open>
  C2. On the block of the claim the extraction succeeds with the summary
  \<^verbatim>\<open>Handles OAuth flows\<close>, but the first hint is the whole remainder of its line, with its
  two double quotes: the hints are not \<^verbatim>\<open>auth changes\<close> and \<^verbatim>\<open>tests\<close>.
\<close>

theorem block_list_hint_keeps_quotes:
  "extractMetadata numstr
     (u ''---\<newline>summary: 'Handles OAuth flows'\<newline>read_when:\<newline>- \"auth changes\"\<newline>- tests\<newline>---'') =
     \<lparr>summary = Some (u ''Handles OAuth flows''),
      readWhen = [u ''\"auth changes\"'', u ''tests''],
      error = None\<rparr>
   \<and> readWhen (extractMetadata numstr
     (u ''---\<newline>summary: 'Handles OAuth flows'\<newline>read_when:\<newline>- \"auth changes\"\<newline>- tests\<newline>---''))
     \<noteq> [u ''auth changes'', u ''tests'']"
  by (simp add: string_defs json_defs extract_defs)

text \<open>
  The same two hints written as an inline list lose their quotes, as the summary does.
\<close>

lemma inline_list_hint_loses_quotes:
  "extractMetadata numstr
     (u ''---\<newline>summary: 'Handles OAuth flows'\<newline>read_when: [\"auth changes\", 'tests']\<newline>---'') =
     \<lparr>summary = Some (u ''Handles OAuth flows''),
      readWhen = [u ''auth changes'', u ''tests''],
      error = None\<rparr>"
  by (simp add: string_defs json_defs extract_defs)

subsection \<open>C3: an empty summary\<close>




subsection \<open>C4: the delimiters of the front matter\<close>

text \<open>
  C4, as amended. The extraction fails with \<^verbatim>\<open>missing front matter\<close> exactly when the
  content does not start with the three characters \<^verbatim>\<open>---\<close>, whatever follows them on the
  first line. When it does, the closing delimiter is the first place at index 3 or later
  where a newline is followed by three dashes; the front matter is the text from index 3
  up to that place; and when there is no such place the extraction fails with
  \<^verbatim>\<open>unterminated front matter\<close>.
\<close>

theorem front_matter_delimiters:
  "(error (extractMetadata numstr content) = Some (u ''missing front matter'')
      \<longleftrightarrow> \<not> startsWith content (u ''---''))
   \<and> (startsWith content (u ''---'') \<and> indexOf content (u ''\<newline>---'') 3 = None \<longrightarrow>
        error (extractMetadata numstr content) = Some (u ''unterminated front matter'')
        \<and> (\<forall>k\<ge>3. \<not> startsWith (drop k content) (u ''\<newline>---'')))
   \<and> (\<forall>e. startsWith content (u ''---'') \<and> indexOf content (u ''\<newline>---'') 3 = Some e \<longrightarrow>
        3 \<le> e \<and> startsWith (drop e content) (u ''\<newline>---'')
        \<and> (\<forall>k. 3 \<le> k \<and> k < e \<longrightarrow> \<not> startsWith (drop k content) (u ''\<newline>---''))
        \<and> extractMetadata numstr content =
            finishMetadata (scanLines numstr (split 0x0A (trim (slice content 3 e))))
        \<and> error (extractMetadata numstr content) \<noteq> Some (u ''unterminated front matter''))"
proof -
  have missing: "(error (extractMetadata numstr content) = Some (u ''missing front matter''))
      = (\<not> startsWith content (u ''---''))"
  proof (cases "startsWith content (u ''---'')")
    case False
    then show ?thesis by (simp add: extractMetadata_def)
  next
    case True
    show ?thesis
    proof (cases "indexOf content (u ''\<newline>---'') 3")
      case None
      with True show ?thesis by (simp add: extractMetadata_def u_def)
    next
      case (Some e)
      with True show ?thesis
        using error_finishMetadata_cases
          [of "scanLines numstr (split 0x0A (trim (slice content 3 e)))"]
        by (auto simp: extractMetadata_delimited u_def)
    qed
  qed
  have absent: "startsWith content (u ''---'') \<and> indexOf content (u ''\<newline>---'') 3 = None \<longrightarrow>
        error (extractMetadata numstr content) = Some (u ''unterminated front matter'')
        \<and> (\<forall>k\<ge>3. \<not> startsWith (drop k content) (u ''\<newline>---''))"
    using closing_delimiter_absent [of content "u ''\<newline>---''"]
    by (simp add: extractMetadata_def)
  have found: "\<forall>e. startsWith content (u ''---'') \<and> indexOf content (u ''\<newline>---'') 3 = Some e \<longrightarrow>
        3 \<le> e \<and> startsWith (drop e content) (u ''\<newline>---'')
        \<and> (\<forall>k. 3 \<le> k \<and> k < e \<longrightarrow> \<not> startsWith (drop k content) (u ''\<newline>---''))
        \<and> extractMetadata numstr content =
            finishMetadata (scanLines numstr (split 0x0A (trim (slice content 3 e))))
        \<and> error (extractMetadata numstr content) \<noteq> Some (u ''unterminated front matter'')"
  proof (intro allI impI)
    fix e
    assume a: "startsWith content (u ''---'') \<and> indexOf content (u ''\<newline>---'') 3 = Some e"
    have eq: "extractMetadata numstr content =
            finishMetadata (scanLines numstr (split 0x0A (trim (slice content 3 e))))"
      using a by (simp add: extractMetadata_delimited)
    have ne: "error (extractMetadata numstr content) \<noteq> Some (u ''unterminated front matter'')"
      using error_finishMetadata_cases
          [of "scanLines numstr (split 0x0A (trim (slice content 3 e)))"]
      unfolding eq by (auto simp: u_def)
    from a have "3 \<le> e \<and> startsWith (drop e content) (u ''\<newline>---'')
         \<and> (\<forall>k. 3 \<le> k \<and> k < e \<longrightarrow> \<not> startsWith (drop k content) (u ''\<newline>---''))"
      by (intro closing_delimiter_found) simp_all
    with eq ne show "3 \<le> e \<and> startsWith (drop e content) (u ''\<newline>---'')
        \<and> (\<forall>k. 3 \<le> k \<and> k < e \<longrightarrow> \<not> startsWith (drop k content) (u ''\<newline>---''))
        \<and> extractMetadata numstr content =
            finishMetadata (scanLines numstr (split 0x0A (trim (slice content 3 e))))
        \<and> error (extractMetadata numstr content) \<noteq> Some (u ''unterminated front matter'')"
      by (intro conjI) (erule conjunct1, erule conjunct2 [THEN conjunct1],
          erule conjunct2 [THEN conjunct2], assumption+)
  qed
  from missing absent found show ?thesis
    by (intro conjI) assumption+
qed

text \<open>A block of one line; its closing delimiter is at index 14.\<close>

theorem front_matter_delimiters_witness:
  "extractMetadata id (u ''---\<newline>summary: x\<newline>---'') =
     finishMetadata (scanLines id (split 0x0A (trim (slice (u ''---\<newline>summary: x\<newline>---'') 3 14))))
   \<and> startsWith (drop 14 (u ''---\<newline>summary: x\<newline>---'')) (u ''\<newline>---'')
   \<and> error (extractMetadata id (u ''---\<newline>summary: x\<newline>---'')) \<noteq> Some (u ''missing front matter'')"
proof -
  let ?c = "u ''---\<newline>summary: x\<newline>---''"
  have h1: "startsWith ?c (u ''---'')"
    by (simp add: string_defs)
  have h2: "indexOf ?c (u ''\<newline>---'') 3 = Some 14"
    by (simp add: string_defs)
  from front_matter_delimiters [of id ?c] h1 h2 show ?thesis
    by blast
qed

text \<open>
  The claim as stated fails when more than three dashes, or anything else, follow on the
  first line: the first line of this content is \<^verbatim>\<open>---x\<close>, not three dashes, and the
  extraction succeeds.
\<close>

theorem first_line_counterexample:
  "hd (split 0x0A (u ''---x\<newline>summary: s\<newline>---'')) \<noteq> u ''---''
   \<and> extractMetadata id (u ''---x\<newline>summary: s\<newline>---'') =
       \<lparr>summary = Some (u ''s''), readWhen = [], error = None\<rparr>"
  by (simp add: string_defs json_defs extract_defs)

subsection \<open>C5: a malformed inline list\<close>

text \<open>
  C5. Take a \<^verbatim>\<open>read_when:\<close> line whose value opens a bracket and is malformed: the closing
  bracket is missing, or \<^verbatim>\<open>JSON.parse\<close> rejects the text, or an element cannot be turned
  into a string. The line raises nothing and adds no hint: the loop goes on with the
  hints and the summary line it had, only collecting, exactly as after a bare
  \<^verbatim>\<open>read_when:\<close> line; so the lines before it and after it, and the summary, give what
  they give without it.
\<close>

theorem malformed_inline_list_ignored:
  assumes "isReadWhenLine rawLine"
    and "inline = trim (sliceFrom (trim rawLine) (length (u ''read_when:'')))"
    and "startsWith inline (u ''['')"
    and "\<not> endsWith inline (u '']'')
         \<or> JSON_parse (replaceQuotes inline) = None
         \<or> (\<exists>parsed. JSON_parse (replaceQuotes inline) = Some (JArr parsed)
                \<and> compactStrings numstr parsed = None)"
  shows "processLine numstr st rawLine = st\<lparr>collectingField := Some read_when\<rparr>
         \<and> scanLines numstr (before @ rawLine # after) =
             scanLines numstr (before @ u ''read_when:'' # after)
         \<and> finishMetadata (scanLines numstr (before @ rawLine # after)) =
             finishMetadata (scanLines numstr (before @ u ''read_when:'' # after))"
proof -
  have "inlineHints numstr inline = []"
    using assms(4) by (auto simp: inlineHints_def)
  then have step: "processLine numstr st' rawLine = st'\<lparr>collectingField := Some read_when\<rparr>" for st'
    using assms(1,2) by (simp add: processLine_readWhen)
  then have "processLine numstr st' rawLine = processLine numstr st' (u ''read_when:'')" for st'
    by (simp add: bare_read_when)
  then have "scanLines numstr (before @ rawLine # after) =
             scanLines numstr (before @ u ''read_when:'' # after)"
    by (simp add: scanLines_def)
  with step show ?thesis by simp
qed

text \<open>An inline list whose second string is not closed.\<close>

theorem malformed_inline_list_ignored_witness:
  "processLine id initialScan (u ''read_when: ['a', 'b]'') =
     initialScan\<lparr>collectingField := Some read_when\<rparr>
   \<and> scanLines id [u ''summary: s'', u ''read_when: ['a', 'b]'', u ''- x''] =
     scanLines id [u ''summary: s'', u ''read_when:'', u ''- x'']"
proof -
  let ?l = "u ''read_when: ['a', 'b]''"
  have h1: "isReadWhenLine ?l"
    by (simp add: string_defs isReadWhenLine_def)
  have h3: "startsWith (trim (sliceFrom (trim ?l) (length (u ''read_when:'')))) (u ''['')"
    by (simp add: string_defs)
  have "JSON_parse (replaceQuotes (trim (sliceFrom (trim ?l) (length (u ''read_when:''))))) = None"
    by (simp add: string_defs json_defs)
  then have h4: "\<not> endsWith (trim (sliceFrom (trim ?l) (length (u ''read_when:'')))) (u '']'')
         \<or> JSON_parse (replaceQuotes (trim (sliceFrom (trim ?l) (length (u ''read_when:''))))) = None
         \<or> (\<exists>parsed. JSON_parse (replaceQuotes (trim (sliceFrom (trim ?l) (length (u ''read_when:''))))) = Some (JArr parsed)
                \<and> compactStrings id parsed = None)"
    by blast
  from malformed_inline_list_ignored [OF h1 refl h3 h4, of initialScan "[u ''summary: s'']" "[u ''- x'']"]
  show ?thesis by simp
qed

subsection \<open>C6: hidden entries and excluded directories\<close>



subsection \<open>C7: the order of the walk\<close>

text \<open>
  C7. For every tree and every comparison, the list the walk returns is the stable sort
  of the relative paths it collects: it is sorted and has the same paths, each as many
  times. The walk is a function of the tree and the comparison, so two runs over the
  same tree give the same list.
\<close>

theorem walk_is_sorted_collection:
  "walkMarkdownFiles cmp rel entries = Sorting_Algorithms.sort cmp (collectedPaths rel entries)
   \<and> Sorting_Algorithms.sorted cmp (walkMarkdownFiles cmp rel entries)
   \<and> mset (walkMarkdownFiles cmp rel entries) = mset (collectedPaths rel entries)"
proof -
  have "sameStableOrder cmp (concat (map (visitEntry cmp rel) entries)) (collectedPaths rel entries)"
    using walk_sameStableOrder(2) [of cmp rel]
      sameStableOrder_concat [of entries cmp "visitEntry cmp rel" "collectedEntry rel"]
    by simp
  then have "walkMarkdownFiles cmp rel entries =
      Sorting_Algorithms.sort cmp (collectedPaths rel entries)"
    using sort_sameStableOrder by fastforce
  then show ?thesis by simp
qed

subsection \<open>C8: the inline list\<close>

text \<open>
  C8. The line \<^verbatim>\<open>read_when: ['a', 'b']\<close> adds the hints \<^verbatim>\<open>a\<close> and \<^verbatim>\<open>b\<close>, in that order, to
  the hints collected so far, whatever the state of the loop; in a delimited block with a
  summary, the extraction succeeds with exactly these two hints. The elements are trimmed,
  and a blank or \<^verbatim>\<open>null\<close> element is left out.
\<close>

theorem inline_list_hints:
  "processLine numstr st (u ''read_when: ['a', 'b']'') =
     st\<lparr>collectingField := Some read_when,
        readWhenSoFar := readWhenSoFar st @ [u ''a'', u ''b'']\<rparr>
   \<and> processLine numstr st (u ''read_when: [' a ', \"\", 'b ', null]'') =
     st\<lparr>collectingField := Some read_when,
        readWhenSoFar := readWhenSoFar st @ [u ''a'', u ''b'']\<rparr>
   \<and> extractMetadata numstr
       (u ''---\<newline>summary: x\<newline>read_when: ['a', 'b']\<newline>---\<newline># Title'') =
     \<lparr>summary = Some (u ''x''), readWhen = [u ''a'', u ''b''], error = None\<rparr>"
  by (simp add: string_defs json_defs extract_defs)

subsection \<open>C9: the docs directory of the repository\<close>

text \<open>
  C9. When no flag and no environment variable gives the directory and the working
  directory has no \<^verbatim>\<open>docs\<close>, the resolution returns \<^verbatim>\<open><repositoryRoot>/docs\<close> or ends with
  the fatal error. It returns the directory only when the repository root is a prefix of
  the working directory (the two are equal, or the working directory is below the root:
  never above it or beside it) and the directory exists; in every other case it ends
  with the fatal error.
\<close>

theorem repository_default:
  assumes "u ''--help'' \<notin> set args" and "u ''-h'' \<notin> set args"
    and "u ''--docs'' \<notin> set args" and "u ''--root'' \<notin> set args"
    and "unset DOCS_DIR" and "unset DOCS_ROOT"
    and "\<not> existsSync (resolveFrom cwd (u ''docs''))"
  shows "resolveDocsDir repoRoot args DOCS_DIR DOCS_ROOT cwd existsSync =
           (if isInsideRepoRoot repoRoot cwd \<and> existsSync (resolveFrom repoRoot (u ''docs''))
            then Docs (resolveFrom repoRoot (u ''docs''))
            else Fatal notFoundMessage)
         \<and> (isInsideRepoRoot repoRoot cwd \<longrightarrow> prefix repoRoot cwd)
         \<and> (\<forall>p. resolveDocsDir repoRoot args DOCS_DIR DOCS_ROOT cwd existsSync = Docs p \<longrightarrow>
               p = resolveFrom repoRoot (u ''docs'') \<and> prefix repoRoot cwd \<and> existsSync p)
         \<and> (\<not> (prefix repoRoot cwd \<and> existsSync (resolveFrom repoRoot (u ''docs''))) \<longrightarrow>
               resolveDocsDir repoRoot args DOCS_DIR DOCS_ROOT cwd existsSync = Fatal notFoundMessage)"
proof -
  have env: "map_option trim DOCS_DIR = None \<or> map_option trim DOCS_DIR = Some []"
    "map_option trim DOCS_ROOT = None \<or> map_option trim DOCS_ROOT = Some []"
    using assms(5,6) by (auto simp: unset_def split: option.splits)
  have eq: "resolveDocsDir repoRoot args DOCS_DIR DOCS_ROOT cwd existsSync =
           (if isInsideRepoRoot repoRoot cwd \<and> existsSync (resolveFrom repoRoot (u ''docs''))
            then Docs (resolveFrom repoRoot (u ''docs''))
            else Fatal notFoundMessage)"
    using assms(1-4,7) env
    by (auto simp: resolveDocsDir_def readFlagValue_absent Let_def)
  show ?thesis
    unfolding eq using isInsideRepoRoot_prefix [of repoRoot cwd] by auto
qed

text \<open>
  The working directory \<^verbatim>\<open>/home/me/repo/scripts\<close>, below the root \<^verbatim>\<open>/home/me/repo\<close>, where
  only \<^verbatim>\<open>/home/me/repo/docs\<close> exists.
\<close>

theorem repository_default_witness:
  "resolveDocsDir [u ''home'', u ''me'', u ''repo''] [] None None
      [u ''home'', u ''me'', u ''repo'', u ''scripts'']
      (\<lambda>p. p = [u ''home'', u ''me'', u ''repo'', u ''docs'']) =
     Docs [u ''home'', u ''me'', u ''repo'', u ''docs'']
   \<and> prefix [u ''home'', u ''me'', u ''repo''] [u ''home'', u ''me'', u ''repo'', u ''scripts'']"
proof -
  let ?root = "[u ''home'', u ''me'', u ''repo'']"
  let ?cwd = "[u ''home'', u ''me'', u ''repo'', u ''scripts'']"
  let ?fs = "\<lambda>p. p = [u ''home'', u ''me'', u ''repo'', u ''docs'']"
  have h1: "u ''--help'' \<notin> set []" and h2: "u ''-h'' \<notin> set []"
    and h3: "u ''--docs'' \<notin> set []" and h4: "u ''--root'' \<notin> set []"
    by simp_all
  have h5: "unset None" by (simp add: unset_def)
  have h7: "\<not> ?fs (resolveFrom ?cwd (u ''docs''))"
    by (simp add: resolveFrom_def applySegment_def string_defs)
  have inside: "isInsideRepoRoot ?root ?cwd"
    by (simp add: isInsideRepoRoot_def relative_def string_defs)
  have docs: "resolveFrom ?root (u ''docs'') = [u ''home'', u ''me'', u ''repo'', u ''docs'']"
    by (simp add: resolveFrom_def applySegment_def string_defs)
  from repository_default [where args = "[]" and DOCS_DIR = None and DOCS_ROOT = None
      and existsSync = ?fs and cwd = ?cwd and repoRoot = ?root, OF h1 h2 h3 h4 h5 h5 h7]
    inside docs
  show ?thesis by simp
qed

subsection \<open>C10: several summary lines\<close>

text \<open>
  C10. In a delimited block with one summary line or more, the summary that is
  normalized and returned (or found empty) is the value of the last of them; and every
  summary line turns the collecting of hints off.
\<close>

theorem last_summary_line_wins:
  assumes "startsWith content (u ''---'')"
    and "indexOf content (u ''\<newline>---'') 3 = Some e"
    and "lines = split 0x0A (trim (slice content 3 e))"
    and "filter isSummaryLine lines \<noteq> []"
  shows "summary (extractMetadata numstr content) =
           (let normalized =
                  normalizeSummary (summaryValue (trim (last (filter isSummaryLine lines))))
            in if normalized = [] then None else Some normalized)
         \<and> error (extractMetadata numstr content) =
           (let normalized =
                  normalizeSummary (summaryValue (trim (last (filter isSummaryLine lines))))
            in if normalized = [] then Some (u ''summary is empty'') else None)
         \<and> (\<forall>st l. isSummaryLine l \<longrightarrow> collectingField (processLine numstr st l) = None)"
proof -
  have "summaryLine (scanLines numstr lines) =
          Some (trim (last (filter isSummaryLine lines)))"
    using assms(4) by (rule summaryLine_scanLines)
  then have "summary (finishMetadata (scanLines numstr lines)) =
           (let normalized =
                  normalizeSummary (summaryValue (trim (last (filter isSummaryLine lines))))
            in if normalized = [] then None else Some normalized)"
    and "error (finishMetadata (scanLines numstr lines)) =
           (let normalized =
                  normalizeSummary (summaryValue (trim (last (filter isSummaryLine lines))))
            in if normalized = [] then Some (u ''summary is empty'') else None)"
    by (simp_all add: finishMetadata_def Let_def)
  moreover have "extractMetadata numstr content = finishMetadata (scanLines numstr lines)"
    using assms(1-3) by (simp add: extractMetadata_delimited)
  ultimately show ?thesis
    by (simp add: processLine_summary)
qed

text \<open>A block with two summary lines and a \<^verbatim>\<open>read_when:\<close> line between them.\<close>

theorem last_summary_line_wins_witness:
  "summary (extractMetadata id
      (u ''---\<newline>summary: first\<newline>read_when:\<newline>summary: second\<newline>---'')) =
     Some (u ''second'')
   \<and> collectingField (processLine id
        \<lparr>summaryLine = None, readWhenSoFar = [], collectingField = Some read_when\<rparr>
        (u ''summary: second'')) = None"
proof -
  let ?c = "u ''---\<newline>summary: first\<newline>read_when:\<newline>summary: second\<newline>---''"
  have h1: "startsWith ?c (u ''---'')"
    by (simp add: string_defs)
  have h2: "indexOf ?c (u ''\<newline>---'') 3 = Some 45"
    by (simp add: string_defs)
  have h4: "filter isSummaryLine (split 0x0A (trim (slice ?c 3 45))) \<noteq> []"
    by (simp add: string_defs isSummaryLine_def)
  have s: "isSummaryLine (u ''summary: second'')"
    by (simp add: string_defs isSummaryLine_def)
  from last_summary_line_wins [OF h1 h2 refl h4, of id] s show ?thesis
    by (simp add: string_defs isSummaryLine_def normalizeSummary_def summaryValue_def)
qed

end
